theory Spec2Isabelle
  imports Complex_Main "HOL-Library.Multiset"
begin

section \<open>The review engine of the marketplace backend\<close>

text \<open>
  The development embeds the entity \<^verbatim>\<open>Review\<close> and the class \<^verbatim>\<open>ReviewService\<close>
  (entities/Review.ts and the review service, both in one source file). The three
  repositories the service is constructed with are the tables of a database record; every
  method of the service is a function from the database to a result and the database it
  leaves behind.
\<close>

subsection \<open>Data model\<close>

text \<open>A \<^verbatim>\<open>Date\<close> is its number of milliseconds.\<close>

type_synonym Date = int

text \<open>The jsonb value of the column \<^verbatim>\<open>reply\<close>: \<^verbatim>\<open>{ comment, createdAt }\<close>.\<close>

record Reply =
  reply_comment :: string
  reply_createdAt :: Date

text \<open>
  The entity \<^verbatim>\<open>Review\<close>, column by column. The relations \<^verbatim>\<open>buyer\<close> and \<^verbatim>\<open>seller\<close> are
  foreign keys, held here as the id of the profile they point to; the service reads
  nothing of a related profile but its id. \<^verbatim>\<open>seller\<close> is set by \<^verbatim>\<open>createReview\<close>, the only
  writer of reviews, and is modelled as always present. The nullable columns are options.
  The primary key is called \<open>idR\<close> (\<open>idS\<close> and \<open>idU\<close> for seller profiles and users).
\<close>

record Review =
  idR :: int
  buyer :: "int option"
  seller :: int
  rating :: int
  comment :: string
  reply :: "Reply option"
  reported :: bool
  reportReason :: "string option"
  reporterId :: "int option"
  createdAt :: Date
  updatedAt :: Date

text \<open>
  The service also writes and reads two properties of a review object that the entity does
  not declare: \<^verbatim>\<open>buyerReviewer\<close> and \<^verbatim>\<open>sellerReviewer\<close>. They are no column and no relation
  of the entity, so they exist on the object in memory only: the store neither saves them
  nor loads them. A review object is therefore the entity's columns together with these two
  properties, \<open>None\<close> standing for \<^verbatim>\<open>undefined\<close>.
\<close>

record ReviewObject =
  entity :: Review
  buyerReviewer :: "int option"
  sellerReviewer :: "int option"

record SellerProfile =
  idS :: int
  userId :: int
  numReviews :: int

text \<open>A user with the relations \<^verbatim>\<open>buyerProfile\<close> and \<^verbatim>\<open>sellerProfile\<close> (the profile's id).\<close>

record User =
  idU :: int
  buyerProfile :: "int option"
  sellerProfile :: "int option"

text \<open>
  The database: one table per repository, rows in insertion order, and the sequence behind
  \<^verbatim>\<open>@PrimaryGeneratedColumn\<close> of the reviews.
\<close>

record db =
  reviewRepository :: "Review list"
  userRepository :: "User list"
  sellerRepository :: "SellerProfile list"
  nextId :: int

text \<open>
  Every \<^verbatim>\<open>await\<close> of the service is a call to the store, which completes or rejects. The
  service catches nothing, so a rejection ends the method with what was written before
  it still in the database. \<open>ok c\<close> says that the store call \<open>c\<close> of the running method
  completes.
\<close>

datatype store_call =
  SellerFindOne | UserFindOne | ReviewFindOne | ReviewSave | ReviewRemove
  | SellerUpdate | ReviewQuery

text \<open>
  The service throws \<^verbatim>\<open>new Error(message)\<close> and nothing else; \<open>StoreFailure\<close> is the rejection
  of a store call.
\<close>

datatype error = Error string | StoreFailure

definition all_ok :: "store_call \<Rightarrow> bool" where
  "all_ok c = True"

subsection \<open>The store\<close>

text \<open>
  \<^verbatim>\<open>findOne({ where: { id }, relations })\<close> on the reviews: the row with that id, as an
  object. The service asks for the relations \<^verbatim>\<open>buyer\<close> and \<^verbatim>\<open>seller\<close>, which the entity
  declares; the object that comes back has no \<^verbatim>\<open>buyerReviewer\<close> and no \<^verbatim>\<open>sellerReviewer\<close>.
\<close>

definition loaded :: "Review \<Rightarrow> ReviewObject" where
  "loaded r = \<lparr>entity = r, buyerReviewer = None, sellerReviewer = None\<rparr>"

definition findOne_review :: "int \<Rightarrow> db \<Rightarrow> ReviewObject option" where
  "findOne_review reviewId d =
     map_option loaded (find (\<lambda>r. idR r = reviewId) (reviewRepository d))"

text \<open>
  \<^verbatim>\<open>reviewRepository.create({ seller, rating, comment })\<close>: an object in memory. The
  generated columns are filled by \<^verbatim>\<open>save\<close>; the others take the defaults of the entity.
\<close>

definition create :: "int \<Rightarrow> int \<Rightarrow> string \<Rightarrow> ReviewObject" where
  "create sellerRef rt cm =
     \<lparr>entity = \<lparr>idR = 0, buyer = None, seller = sellerRef, rating = rt, comment = cm,
                 reply = None, reported = False, reportReason = None, reporterId = None,
                 createdAt = 0, updatedAt = 0\<rparr>,
      buyerReviewer = None, sellerReviewer = None\<rparr>"

text \<open>
  \<^verbatim>\<open>save\<close> of an object that has no id yet inserts a row made of the entity's columns, with
  the next id of the sequence and both timestamps; the object comes back with them.
\<close>

definition save_new :: "Date \<Rightarrow> ReviewObject \<Rightarrow> db \<Rightarrow> ReviewObject \<times> db" where
  "save_new now obj d =
     (let row = (entity obj)\<lparr>idR := nextId d, createdAt := now, updatedAt := now\<rparr>
      in (obj\<lparr>entity := row\<rparr>,
          d\<lparr>reviewRepository := reviewRepository d @ [row], nextId := nextId d + 1\<rparr>))"

text \<open>
  \<^verbatim>\<open>save\<close> of a loaded object compares it with the stored row of its id. When no column
  differs it sends no UPDATE and the row keeps its \<^verbatim>\<open>updatedAt\<close>; otherwise it updates the
  row and stamps \<^verbatim>\<open>updatedAt\<close>.
\<close>

definition save_loaded :: "Date \<Rightarrow> ReviewObject \<Rightarrow> db \<Rightarrow> ReviewObject \<times> db" where
  "save_loaded now obj d =
     (if find (\<lambda>r. idR r = idR (entity obj)) (reviewRepository d) = Some (entity obj)
      then (obj, d)
      else let row = (entity obj)\<lparr>updatedAt := now\<rparr>
           in (obj\<lparr>entity := row\<rparr>,
               d\<lparr>reviewRepository :=
                    map (\<lambda>r. if idR r = idR row then row else r) (reviewRepository d)\<rparr>))"

text \<open>\<^verbatim>\<open>remove\<close> deletes the row of the object's id.\<close>

definition remove_review :: "ReviewObject \<Rightarrow> db \<Rightarrow> db" where
  "remove_review obj d =
     d\<lparr>reviewRepository := filter (\<lambda>r. idR r \<noteq> idR (entity obj)) (reviewRepository d)\<rparr>"

text \<open>
  The query builder's \<^verbatim>\<open>update(SellerProfile).set({ numReviews: () => "numReviews + k" })
  .where("id = :sellerId")\<close>: the database adds \<open>k\<close> to the counter of the rows with that id.
\<close>

definition add_numReviews :: "int \<Rightarrow> int \<Rightarrow> db \<Rightarrow> db" where
  "add_numReviews sid k d =
     d\<lparr>sellerRepository :=
          map (\<lambda>s. if idS s = sid then s\<lparr>numReviews := numReviews s + k\<rparr> else s)
            (sellerRepository d)\<rparr>"

text \<open>The rows a query with \<^verbatim>\<open>where('review.sellerId = :sellerId')\<close> ranges over.\<close>

definition reviews_of :: "int \<Rightarrow> db \<Rightarrow> Review list" where
  "reviews_of sellerId d = filter (\<lambda>r. seller r = sellerId) (reviewRepository d)"

text \<open>
  \<^verbatim>\<open>orderBy('review.createdAt', 'DESC')\<close>. Rows of equal \<^verbatim>\<open>createdAt\<close> come in an order the
  database chooses; here they keep their insertion order.
\<close>

definition order_desc :: "Review list \<Rightarrow> Review list" where
  "order_desc rs = sort_key (\<lambda>r. - createdAt r) rs"

text \<open>
  \<^verbatim>\<open>skip(s).take(t)\<close> becomes OFFSET and LIMIT. The service passes both on unchecked. The
  query builder sends no LIMIT for \<^verbatim>\<open>take(0)\<close> and no OFFSET for \<^verbatim>\<open>skip(0)\<close>, so a limit of
  0 keeps every row; a negative LIMIT or OFFSET the database refuses.
\<close>

definition skip_take :: "int \<Rightarrow> int \<Rightarrow> 'a list \<Rightarrow> error + 'a list" where
  "skip_take s t xs =
     (if s < 0 \<or> t < 0 then Inl StoreFailure
      else if t = 0 then Inr (drop (nat s) xs)
      else Inr (take (nat t) (drop (nat s) xs)))"

subsection \<open>ReviewService\<close>

text \<open>
  Each method takes \<open>ok\<close>, the database and, where the store or \<^verbatim>\<open>new Date()\<close> reads the
  clock, the time \<open>now\<close>; it returns its result (\<open>Inl\<close> what it throws) and the database
  afterwards.
\<close>

definition createReview ::
  "(store_call \<Rightarrow> bool) \<Rightarrow> db \<Rightarrow> Date \<Rightarrow> int \<Rightarrow> int \<Rightarrow> int \<Rightarrow> string
     \<Rightarrow> (error + ReviewObject) \<times> db" where
  "createReview ok d now sellerId reviewerId rt cm =
     (if rt < 1 \<or> rt > 5 then (Inl (Error ''Rating must be between 1 and 5''), d)
      else if \<not> ok SellerFindOne then (Inl StoreFailure, d)
      else case find (\<lambda>s. userId s = sellerId) (sellerRepository d) of
        None \<Rightarrow> (Inl (Error ''Seller not found''), d)
      | Some sellerP \<Rightarrow>
          if \<not> ok UserFindOne then (Inl StoreFailure, d)
          else (case find (\<lambda>u. idU u = reviewerId) (userRepository d) of
            None \<Rightarrow> (Inl (Error ''User not found''), d)
          | Some reviewerUser \<Rightarrow>
              (case (case buyerProfile reviewerUser of
                       Some b \<Rightarrow> Some b | None \<Rightarrow> sellerProfile reviewerUser) of
                 None \<Rightarrow>
                   (Inl (Error
                     ''User must have either a buyer or seller profile to leave a review''), d)
               | Some reviewer \<Rightarrow>
                   let review0 = create (idS sellerP) rt cm;
                       review =
                         (case buyerProfile reviewerUser of
                            Some b \<Rightarrow> review0\<lparr>buyerReviewer := Some b\<rparr>
                          | None \<Rightarrow>
                              (case sellerProfile reviewerUser of
                                 Some s \<Rightarrow> review0\<lparr>sellerReviewer := Some s\<rparr>
                               | None \<Rightarrow> review0))
                   in if \<not> ok ReviewSave then (Inl StoreFailure, d)
                      else let (savedReview, d1) = save_new now review d
                           in if \<not> ok SellerUpdate then (Inl StoreFailure, d1)
                              else (Inr savedReview, add_numReviews (idS sellerP) 1 d1))))"

text \<open>
  \<^verbatim>\<open>getSellerStats\<close>. \<^verbatim>\<open>getRawOne\<close> gives the one row of the aggregate query as an object
  whose keys are the names of the result columns. The query names its two columns by the
  unquoted aliases \<^verbatim>\<open>totalReviews\<close> and \<^verbatim>\<open>averageRating\<close>; the store is PostgreSQL (the
  entity has a jsonb column), which folds an unquoted identifier to lower case. COUNT is
  the number of the seller's rows, AVG their mean, NULL when there is none; the mean is an
  exact quotient here, its rounding to a double is not modelled.
\<close>

definition lower_case :: "char \<Rightarrow> char" where
  "lower_case c =
     (case map_of (zip ''ABCDEFGHIJKLMNOPQRSTUVWXYZ'' ''abcdefghijklmnopqrstuvwxyz'') c of
        None \<Rightarrow> c
      | Some l \<Rightarrow> l)"

definition fold_identifier :: "string \<Rightarrow> string" where
  "fold_identifier name = map lower_case name"

definition avg_rating :: "Review list \<Rightarrow> real option" where
  "avg_rating rows =
     (if rows = [] then None
      else Some (real_of_int (sum_list (map rating rows)) / real (length rows)))"

text \<open>The raw row: each column under its folded name, \<open>None\<close> for NULL.\<close>

definition getRawOne :: "Review list \<Rightarrow> (string \<times> real option) list" where
  "getRawOne rows =
     [(fold_identifier ''totalReviews'', Some (real (length rows))),
      (fold_identifier ''averageRating'', avg_rating rows)]"

text \<open>
  \<^verbatim>\<open>Number(x) || 0\<close> of a property \<open>x\<close> of the raw row: a key the row does not have reads
  as \<^verbatim>\<open>undefined\<close>, whose \<^verbatim>\<open>Number\<close> is NaN, and NaN, NULL and 0 all end as 0.
\<close>

definition number_or_0 :: "real option option \<Rightarrow> real" where
  "number_or_0 x =
     (case x of
        None \<Rightarrow> 0
      | Some None \<Rightarrow> 0
      | Some (Some v) \<Rightarrow> if v = 0 then 0 else v)"

record SellerStats =
  averageRating :: real
  totalReviews :: real

definition getSellerStats :: "(store_call \<Rightarrow> bool) \<Rightarrow> db \<Rightarrow> int \<Rightarrow> error + SellerStats" where
  "getSellerStats ok d sellerId =
     (if \<not> ok ReviewQuery then Inl StoreFailure
      else let raw = getRawOne (reviews_of sellerId d)
           in Inr \<lparr>averageRating = number_or_0 (map_of raw ''averageRating''),
                   totalReviews = number_or_0 (map_of raw ''totalReviews'')\<rparr>)"

text \<open>
  \<^verbatim>\<open>getSellerReviews\<close>: \<^verbatim>\<open>getManyAndCount\<close> gives the page and the number of rows the query
  matches without \<^verbatim>\<open>skip\<close> and \<^verbatim>\<open>take\<close>. The left joins add the buyer's display data to
  each row and change neither the rows nor their order.
\<close>

record ReviewPage =
  reviews :: "Review list"
  total :: int
  hasMore :: bool

definition getSellerReviews ::
  "(store_call \<Rightarrow> bool) \<Rightarrow> db \<Rightarrow> int \<Rightarrow> int \<Rightarrow> int \<Rightarrow> error + ReviewPage" where
  "getSellerReviews ok d sellerId page limit =
     (if \<not> ok ReviewQuery then Inl StoreFailure
      else case skip_take ((page - 1) * limit) limit (order_desc (reviews_of sellerId d)) of
        Inl e \<Rightarrow> Inl e
      | Inr rs \<Rightarrow>
          let n = int (length (reviews_of sellerId d))
          in Inr \<lparr>reviews = rs, total = n, hasMore = (n > page * limit)\<rparr>)"

definition addReplyToReview ::
  "(store_call \<Rightarrow> bool) \<Rightarrow> db \<Rightarrow> Date \<Rightarrow> int \<Rightarrow> int \<Rightarrow> string
     \<Rightarrow> (error + ReviewObject) \<times> db" where
  "addReplyToReview ok d now reviewId sellerId cm =
     (if \<not> ok ReviewFindOne then (Inl StoreFailure, d)
      else case findOne_review reviewId d of
        None \<Rightarrow> (Inl (Error ''Review not found''), d)
      | Some review \<Rightarrow>
          if seller (entity review) \<noteq> sellerId
          then (Inl (Error ''Only the seller can reply to this review''), d)
          else if reply (entity review) \<noteq> None
          then (Inl (Error ''Review already has a reply''), d)
          else let review' =
                     review\<lparr>entity := (entity review)
                       \<lparr>reply := Some \<lparr>reply_comment = cm, reply_createdAt = now\<rparr>\<rparr>\<rparr>
               in if \<not> ok ReviewSave then (Inl StoreFailure, d)
                  else let (saved, d1) = save_loaded now review' d in (Inr saved, d1))"

definition reportReview ::
  "(store_call \<Rightarrow> bool) \<Rightarrow> db \<Rightarrow> Date \<Rightarrow> int \<Rightarrow> int \<Rightarrow> string
     \<Rightarrow> (error + ReviewObject) \<times> db" where
  "reportReview ok d now reviewId reporter reason =
     (if \<not> ok ReviewFindOne then (Inl StoreFailure, d)
      else case findOne_review reviewId d of
        None \<Rightarrow> (Inl (Error ''Review not found''), d)
      | Some review \<Rightarrow>
          let review' =
                review\<lparr>entity := (entity review)
                  \<lparr>reported := True, reportReason := Some reason,
                   reporterId := Some reporter\<rparr>\<rparr>
          in if \<not> ok ReviewSave then (Inl StoreFailure, d)
             else let (saved, d1) = save_loaded now review' d in (Inr saved, d1))"

text \<open>
  \<^verbatim>\<open>deleteReview\<close>. The guard is the source's: a property that is set and whose id differs
  from \<^verbatim>\<open>userId\<close> throws; a property that is \<^verbatim>\<open>undefined\<close> makes its disjunct false.
\<close>

definition deleteReview ::
  "(store_call \<Rightarrow> bool) \<Rightarrow> db \<Rightarrow> int \<Rightarrow> int \<Rightarrow> (error + unit) \<times> db" where
  "deleteReview ok d reviewId caller =
     (if \<not> ok ReviewFindOne then (Inl StoreFailure, d)
      else case findOne_review reviewId d of
        None \<Rightarrow> (Inl (Error ''Review not found''), d)
      | Some review \<Rightarrow>
          if (case buyerReviewer review of Some b \<Rightarrow> b \<noteq> caller | None \<Rightarrow> False)
             \<or> (case sellerReviewer review of Some s \<Rightarrow> s \<noteq> caller | None \<Rightarrow> False)
          then (Inl (Error ''Only the reviewer can delete this review''), d)
          else if \<not> ok ReviewRemove then (Inl StoreFailure, d)
          else let d1 = remove_review review d
               in if \<not> ok SellerUpdate then (Inl StoreFailure, d1)
                  else (Inr (), add_numReviews (seller (entity review)) (- 1) d1))"

subsection \<open>Calls of the service\<close>

text \<open>
  The four methods that write, as the calls a client can make, and the database a call
  leaves behind. \<open>getSellerStats\<close> and \<open>getSellerReviews\<close> only read.
\<close>

datatype call =
  CreateReview int int int string
  | AddReplyToReview int int string
  | ReportReview int int string
  | DeleteReview int int

fun run :: "(store_call \<Rightarrow> bool) \<Rightarrow> Date \<Rightarrow> db \<Rightarrow> call \<Rightarrow> db" where
  "run ok now d (CreateReview sellerId reviewerId rt cm) =
     snd (createReview ok d now sellerId reviewerId rt cm)"
| "run ok now d (AddReplyToReview reviewId sellerId cm) =
     snd (addReplyToReview ok d now reviewId sellerId cm)"
| "run ok now d (ReportReview reviewId reporter reason) =
     snd (reportReview ok d now reviewId reporter reason)"
| "run ok now d (DeleteReview reviewId caller) = snd (deleteReview ok d reviewId caller)"

subsection \<open>Invariants\<close>

text \<open>The counter of every seller profile is the number of reviews that reference it.\<close>

definition counter_consistent :: "db \<Rightarrow> bool" where
  "counter_consistent d =
     (\<forall>s\<in>set (sellerRepository d). numReviews s = int (length (reviews_of (idS s) d)))"

text \<open>The primary key: ids are unique and were all drawn from the sequence.\<close>

definition wf_db :: "db \<Rightarrow> bool" where
  "wf_db d =
     (distinct (map idR (reviewRepository d))
      \<and> (\<forall>r\<in>set (reviewRepository d). idR r < nextId d))"



subsection \<open>Small databases\<close>

text \<open>
  Two seller profiles (of the users 10 and 4) without reviews, and three users: user 3 has
  the buyer profile 7, user 4 the seller profile 2, user 5 no profile.
\<close>

definition db_ex :: db where
  "db_ex =
     \<lparr>reviewRepository = [],
      userRepository =
        [\<lparr>idU = 3, buyerProfile = Some 7, sellerProfile = None\<rparr>,
         \<lparr>idU = 4, buyerProfile = None, sellerProfile = Some 2\<rparr>,
         \<lparr>idU = 5, buyerProfile = None, sellerProfile = None\<rparr>],
      sellerRepository =
        [\<lparr>idS = 1, userId = 10, numReviews = 0\<rparr>, \<lparr>idS = 2, userId = 4, numReviews = 0\<rparr>],
      nextId = 1\<rparr>"

text \<open>The same after user 3 has reviewed the seller of user 10 at time 100.\<close>

definition review_one :: Review where
  "review_one =
     \<lparr>idR = 1, buyer = None, seller = 1, rating = 5, comment = ''good'', reply = None,
      reported = False, reportReason = None, reporterId = None, createdAt = 100,
      updatedAt = 100\<rparr>"

definition db_one :: db where
  "db_one =
     \<lparr>reviewRepository = [review_one],
      userRepository =
        [\<lparr>idU = 3, buyerProfile = Some 7, sellerProfile = None\<rparr>,
         \<lparr>idU = 4, buyerProfile = None, sellerProfile = Some 2\<rparr>,
         \<lparr>idU = 5, buyerProfile = None, sellerProfile = None\<rparr>],
      sellerRepository =
        [\<lparr>idS = 1, userId = 10, numReviews = 1\<rparr>, \<lparr>idS = 2, userId = 4, numReviews = 0\<rparr>],
      nextId = 2\<rparr>"

text \<open>And after seller 1 has replied at time 200.\<close>

definition reply_one :: Reply where
  "reply_one = \<lparr>reply_comment = ''thanks'', reply_createdAt = 200\<rparr>"

definition db_replied :: db where
  "db_replied =
     db_one\<lparr>reviewRepository := [review_one\<lparr>reply := Some reply_one, updatedAt := 200\<rparr>]\<rparr>"

text \<open>Ten reviews of seller 1, inserted in another order than they were created.\<close>

definition review_at :: "int \<Rightarrow> Date \<Rightarrow> int \<Rightarrow> Review" where
  "review_at i t rt =
     \<lparr>idR = i, buyer = None, seller = 1, rating = rt, comment = [], reply = None,
      reported = False, reportReason = None, reporterId = None, createdAt = t,
      updatedAt = t\<rparr>"

definition db_ten :: db where
  "db_ten =
     \<lparr>reviewRepository =
        [review_at 1 70 5, review_at 2 30 4, review_at 3 100 3, review_at 4 60 5,
         review_at 5 20 1, review_at 6 90 2, review_at 7 50 5, review_at 8 10 4,
         review_at 9 80 3, review_at 10 40 4],
      userRepository = [],
      sellerRepository = [\<lparr>idS = 1, userId = 10, numReviews = 10\<rparr>],
      nextId = 11\<rparr>"

text \<open>The ten reviews from the newest to the oldest.\<close>

definition ten_sorted :: "Review list" where
  "ten_sorted =
     [review_at 3 100 3, review_at 6 90 2, review_at 9 80 3, review_at 1 70 5,
      review_at 4 60 5, review_at 7 50 5, review_at 10 40 4, review_at 2 30 4,
      review_at 5 20 1, review_at 8 10 4]"

text \<open>A store whose update of the seller profiles rejects, every other call completing.\<close>

definition update_fails :: "store_call \<Rightarrow> bool" where
  "update_fails c = (c \<noteq> SellerUpdate)"

section \<open>Properties\<close>

subsection \<open>Lists and tables\<close>

lemma sorted_order_desc: "sorted_wrt (\<lambda>a b. createdAt a \<ge> createdAt b) (order_desc rs)"
proof -
  have "sorted (map (\<lambda>r. - createdAt r) (order_desc rs))"
    by (simp add: order_desc_def)
  then show ?thesis by (simp add: sorted_map)
qed

lemma take_drop_nth:
  "m + n \<le> length xs \<Longrightarrow> take n (drop m xs) = map (\<lambda>i. xs ! i) [m..<m + n]"
  by (simp add: list_eq_iff_nth_eq)

lemma find_SomeD: "find P xs = Some x \<Longrightarrow> P x \<and> x \<in> set xs"
  by (induction xs) (auto split: if_splits)

lemma find_idR: "find (\<lambda>x. idR x = a) rs = Some r \<Longrightarrow> idR r = a"
  by (auto dest: find_SomeD)

lemma find_in_distinct:
  "distinct (map idR rs) \<Longrightarrow> r \<in> set rs \<Longrightarrow> find (\<lambda>x. idR x = idR r) rs = Some r"
  by (induction rs) (auto simp: image_iff)

lemma same_id_same_row:
  "distinct (map idR rs) \<Longrightarrow> r \<in> set rs \<Longrightarrow> r' \<in> set rs \<Longrightarrow> idR r' = idR r \<Longrightarrow> r' = r"
  by (induction rs) (auto simp: image_iff)

lemma find_map_update:
  "find (\<lambda>x. idR x = i) rs = Some r \<Longrightarrow> idR row = i \<Longrightarrow>
   find (\<lambda>x. idR x = i) (map (\<lambda>x. if idR x = i then row else x) rs) = Some row"
  by (induction rs) (auto split: if_splits)


lemma map_idR_update:
  "idR row = a \<Longrightarrow> map idR (map (\<lambda>x. if idR x = a then row else x) rs) = map idR rs"
  by (induction rs) auto

text \<open>Removing the row of an id takes one row out of the count it belongs to.\<close>

lemma length_filter_remove:
  "distinct (map idR rs) \<Longrightarrow> find (\<lambda>x. idR x = i) rs = Some r \<Longrightarrow>
   int (length (filter P (filter (\<lambda>x. idR x \<noteq> i) rs)))
     = int (length (filter P rs)) - (if P r then 1 else 0)"
proof (induction rs)
  case Nil
  then show ?case by simp
next
  case (Cons a rs)
  show ?case
  proof (cases "idR a = i")
    case True
    with Cons.prems have "a = r" by simp
    moreover have "filter (\<lambda>x. idR x \<noteq> i) rs = rs"
      using Cons.prems(1) True by (auto simp: filter_id_conv image_iff)
    ultimately show ?thesis using True by simp
  next
    case False
    with Cons show ?thesis by (simp split: if_splits)
  qed
qed

text \<open>Updating the row of an id changes no count that the old and the new row agree on.\<close>

lemma length_filter_update:
  "distinct (map idR rs) \<Longrightarrow> find (\<lambda>x. idR x = a) rs = Some r0 \<Longrightarrow> idR row = a \<Longrightarrow>
   P row = P r0 \<Longrightarrow>
   length (filter P (map (\<lambda>x. if idR x = a then row else x) rs)) = length (filter P rs)"
proof (induction rs)
  case Nil
  then show ?case by simp
next
  case (Cons b rs)
  show ?case
  proof (cases "idR b = a")
    case True
    with Cons.prems have "b = r0" by simp
    moreover have "map (\<lambda>x. if idR x = a then row else x) rs = rs"
      using Cons.prems(1) True by (intro map_idI) (auto simp: image_iff)
    ultimately show ?thesis using True Cons.prems(4) by simp
  next
    case False
    with Cons show ?thesis by simp
  qed
qed

subsection \<open>What the writing methods leave behind\<close>

lemma createReview_rows:
  "\<exists>rows. reviewRepository (snd (createReview ok d now a b rt cm)) = reviewRepository d @ rows
     \<and> (\<forall>row\<in>set rows. idR row = nextId d)"
  by (auto simp: createReview_def Let_def create_def save_new_def add_numReviews_def
      split: option.splits)

lemma createReview_row:
  assumes "createReview ok d now sellerId reviewerId rt cm = (Inr rv, d')"
  shows "\<exists>sp. find (\<lambda>s. userId s = sellerId) (sellerRepository d) = Some sp
     \<and> entity rv = \<lparr>idR = nextId d, buyer = None, seller = idS sp, rating = rt, comment = cm,
           reply = None, reported = False, reportReason = None, reporterId = None,
           createdAt = now, updatedAt = now\<rparr>
     \<and> reviewRepository d' = reviewRepository d @ [entity rv]"
  using assms
  by (auto simp: createReview_def Let_def create_def save_new_def add_numReviews_def
      split: option.splits if_splits)

lemma createReview_no_profile:
  assumes "1 \<le> rt" "rt \<le> 5" "ok SellerFindOne" "ok UserFindOne"
    and "find (\<lambda>s. userId s = sellerId) (sellerRepository d) = Some sp"
    and "find (\<lambda>u. idU u = reviewerId) (userRepository d) = Some u"
    and "buyerProfile u = None" "sellerProfile u = None"
  shows "createReview ok d now sellerId reviewerId rt cm
     = (Inl (Error ''User must have either a buyer or seller profile to leave a review''), d)"
  using assms by (simp add: createReview_def)

lemma reply_changes:
  "reply r = None \<Longrightarrow> (r = r\<lparr>reply := Some x\<rparr>) = False"
  "reply r = None \<Longrightarrow> (r\<lparr>reply := Some x\<rparr> = r) = False"
proof -
  assume n: "reply r = None"
  have "r \<noteq> r\<lparr>reply := Some x\<rparr>"
  proof
    assume "r = r\<lparr>reply := Some x\<rparr>"
    then have "reply r = reply (r\<lparr>reply := Some x\<rparr>)" by simp
    with n show False by simp
  qed
  then show "(r = r\<lparr>reply := Some x\<rparr>) = False" "(r\<lparr>reply := Some x\<rparr> = r) = False"
    by auto
qed

lemma report_unchanged:
  "(r = r\<lparr>reported := True, reportReason := Some s, reporterId := Some p\<rparr>)
     = (reported r \<and> reportReason r = Some s \<and> reporterId r = Some p)"
  by (cases r) auto

lemma addReplyToReview_snd:
  "snd (addReplyToReview ok d now a s cm) =
     (case find (\<lambda>x. idR x = a) (reviewRepository d) of
        None \<Rightarrow> d
      | Some r0 \<Rightarrow>
          if ok ReviewFindOne \<and> seller r0 = s \<and> reply r0 = None \<and> ok ReviewSave
          then d\<lparr>reviewRepository :=
                   map (\<lambda>x. if idR x = a
                            then r0\<lparr>reply := Some \<lparr>reply_comment = cm, reply_createdAt = now\<rparr>,
                                    updatedAt := now\<rparr>
                            else x) (reviewRepository d)\<rparr>
          else d)"
proof (cases "find (\<lambda>x. idR x = a) (reviewRepository d)")
  case None
  then show ?thesis by (simp add: addReplyToReview_def findOne_review_def)
next
  case (Some r0)
  then have "idR r0 = a" by (rule find_idR)
  with Some show ?thesis
    by (simp add: addReplyToReview_def findOne_review_def loaded_def save_loaded_def Let_def
        reply_changes)
qed

lemma reportReview_snd:
  "snd (reportReview ok d now a p s) =
     (case find (\<lambda>x. idR x = a) (reviewRepository d) of
        None \<Rightarrow> d
      | Some r0 \<Rightarrow>
          if ok ReviewFindOne \<and> ok ReviewSave
             \<and> \<not> (reported r0 \<and> reportReason r0 = Some s \<and> reporterId r0 = Some p)
          then d\<lparr>reviewRepository :=
                   map (\<lambda>x. if idR x = a
                            then r0\<lparr>reported := True, reportReason := Some s,
                                    reporterId := Some p, updatedAt := now\<rparr>
                            else x) (reviewRepository d)\<rparr>
          else d)"
proof (cases "find (\<lambda>x. idR x = a) (reviewRepository d)")
  case None
  then show ?thesis by (simp add: reportReview_def findOne_review_def)
next
  case (Some r0)
  then have "idR r0 = a" by (rule find_idR)
  with Some show ?thesis
    by (simp add: reportReview_def findOne_review_def loaded_def save_loaded_def Let_def
        report_unchanged)
qed

lemma deleteReview_rows:
  "set (reviewRepository (snd (deleteReview ok d a c))) \<subseteq> set (reviewRepository d)"
  by (auto simp: deleteReview_def findOne_review_def loaded_def remove_review_def
      add_numReviews_def Let_def split: option.splits)

text \<open>The guard of \<open>deleteReview\<close> never looks at the caller.\<close>

lemma deleteReview_ignores_caller:
  "deleteReview ok d reviewId caller = deleteReview ok d reviewId caller'"
  by (simp add: deleteReview_def findOne_review_def loaded_def split: option.splits)



lemma reportReview_found:
  assumes "ok ReviewFindOne" "ok ReviewSave"
    and "find (\<lambda>x. idR x = reviewId) (reviewRepository d) = Some r"
  shows "\<exists>d'. reportReview ok d now reviewId p s
           = (Inr (loaded (r\<lparr>reported := True, reportReason := Some s, reporterId := Some p,
                              updatedAt := (if reported r \<and> reportReason r = Some s
                                               \<and> reporterId r = Some p
                                            then updatedAt r else now)\<rparr>)), d')
        \<and> find (\<lambda>x. idR x = reviewId) (reviewRepository d')
           = Some (r\<lparr>reported := True, reportReason := Some s, reporterId := Some p,
                      updatedAt := (if reported r \<and> reportReason r = Some s
                                       \<and> reporterId r = Some p
                                    then updatedAt r else now)\<rparr>)"
proof -
  have i: "idR r = reviewId" using assms(3) by (rule find_idR)
  show ?thesis
  proof (cases "reported r \<and> reportReason r = Some s \<and> reporterId r = Some p")
    case True
    then have same: "r\<lparr>reported := True, reportReason := Some s, reporterId := Some p\<rparr> = r"
      using report_unchanged [where r = r and s = s and p = p] by simp
    have "reportReview ok d now reviewId p s = (Inr (loaded r), d)"
      using assms i
      by (simp add: reportReview_def findOne_review_def loaded_def save_loaded_def Let_def same)
    with True assms(3) show ?thesis by (simp add: same)
  next
    case False
    let ?row = "r\<lparr>reported := True, reportReason := Some s, reporterId := Some p,
                   updatedAt := now\<rparr>"
    have ne: "r \<noteq> r\<lparr>reported := True, reportReason := Some s, reporterId := Some p\<rparr>"
      using False report_unchanged [where r = r and s = s and p = p] by simp
    let ?d' = "d\<lparr>reviewRepository :=
                    map (\<lambda>x. if idR x = reviewId then ?row else x) (reviewRepository d)\<rparr>"
    have u: "(if reported r \<and> reportReason r = Some s \<and> reporterId r = Some p
              then updatedAt r else now) = now"
      using False by (rule if_not_P)
    have run: "reportReview ok d now reviewId p s = (Inr (loaded ?row), ?d')"
      using assms i ne
      by (simp add: reportReview_def findOne_review_def loaded_def save_loaded_def Let_def)
    have fnd: "find (\<lambda>x. idR x = reviewId) (reviewRepository ?d') = Some ?row"
      using find_map_update [OF assms(3), of ?row] i by simp
    show ?thesis unfolding u using run fnd by blast
  qed
qed

subsection \<open>The invariants, step by step\<close>

lemma wf_db_update:
  assumes "wf_db d" "idR row = a"
  shows "wf_db (d\<lparr>reviewRepository :=
                   map (\<lambda>x. if idR x = a then row else x) (reviewRepository d)\<rparr>)"
proof -
  let ?rs = "map (\<lambda>x. if idR x = a then row else x) (reviewRepository d)"
  have m: "map idR ?rs = map idR (reviewRepository d)"
    using assms(2) by (rule map_idR_update)
  have b: "\<forall>r\<in>set ?rs. idR r < nextId d"
    using assms by (auto simp: wf_db_def split: if_splits)
  have "distinct (map idR (reviewRepository d))" using assms(1) by (simp add: wf_db_def)
  then have "distinct (map idR ?rs)" by (simp only: m)
  with b show ?thesis by (simp add: wf_db_def)
qed

lemma wf_db_run: "wf_db d \<Longrightarrow> wf_db (run ok now d c)"
proof (cases c)
  case (CreateReview a b rt cm)
  assume "wf_db d"
  then have "wf_db (snd (createReview ok d now a b rt cm))"
    by (auto simp: createReview_def Let_def create_def save_new_def add_numReviews_def wf_db_def
        split: option.splits)
  with CreateReview show ?thesis by simp
next
  case (AddReplyToReview a s cm)
  assume w: "wf_db d"
  show ?thesis
  proof (cases "find (\<lambda>x. idR x = a) (reviewRepository d)")
    case None
    with w AddReplyToReview show ?thesis by (simp add: addReplyToReview_snd)
  next
    case (Some r0)
    have "idR (r0\<lparr>reply := Some \<lparr>reply_comment = cm, reply_createdAt = now\<rparr>,
                    updatedAt := now\<rparr>) = a"
      using find_idR [OF Some] by simp
    from wf_db_update [OF w this] w AddReplyToReview Some show ?thesis
      by (simp add: addReplyToReview_snd)
  qed
next
  case (ReportReview a p s)
  assume w: "wf_db d"
  show ?thesis
  proof (cases "find (\<lambda>x. idR x = a) (reviewRepository d)")
    case None
    with w ReportReview show ?thesis by (simp add: reportReview_snd)
  next
    case (Some r0)
    have "idR (r0\<lparr>reported := True, reportReason := Some s, reporterId := Some p,
                    updatedAt := now\<rparr>) = a"
      using find_idR [OF Some] by simp
    from wf_db_update [OF w this] w ReportReview Some show ?thesis
      by (simp add: reportReview_snd)
  qed
next
  case (DeleteReview a caller)
  assume "wf_db d"
  then have "wf_db (snd (deleteReview ok d a caller))"
    by (auto simp: deleteReview_def findOne_review_def loaded_def remove_review_def
        add_numReviews_def Let_def wf_db_def distinct_map_filter split: option.splits)
  with DeleteReview show ?thesis by simp
qed

lemma consistent_after_remove:
  assumes "counter_consistent d" "distinct (map idR (reviewRepository d))"
    and "find (\<lambda>x. idR x = i) (reviewRepository d) = Some r"
  shows "counter_consistent (add_numReviews (seller r) (- 1) (remove_review (loaded r) d))"
proof -
  have i: "idR r = i" using assms(3) by (rule find_idR)
  show ?thesis
    using assms(1) length_filter_remove [OF assms(2) assms(3)]
    by (auto simp: counter_consistent_def add_numReviews_def remove_review_def reviews_of_def
        loaded_def i)
qed

lemma consistent_update:
  assumes "counter_consistent d" "wf_db d"
    and "find (\<lambda>x. idR x = a) (reviewRepository d) = Some r0"
    and "idR row = a" "seller row = seller r0"
  shows "counter_consistent (d\<lparr>reviewRepository :=
                   map (\<lambda>x. if idR x = a then row else x) (reviewRepository d)\<rparr>)"
proof -
  have dist: "distinct (map idR (reviewRepository d))" using assms(2) by (simp add: wf_db_def)
  have "length (filter (\<lambda>r. seller r = k)
                 (map (\<lambda>x. if idR x = a then row else x) (reviewRepository d)))
        = length (filter (\<lambda>r. seller r = k) (reviewRepository d))" for k
    using length_filter_update [OF dist assms(3) assms(4), of "\<lambda>r. seller r = k"] assms(5)
    by simp
  then show ?thesis using assms(1) by (simp add: counter_consistent_def reviews_of_def)
qed

lemma consistent_createReview:
  assumes "counter_consistent d" "ok SellerUpdate"
  shows "counter_consistent (snd (createReview ok d now sellerId reviewerId rt cm))"
  using assms
  by (auto simp: createReview_def Let_def create_def save_new_def add_numReviews_def
      counter_consistent_def reviews_of_def split: option.splits)

lemma consistent_deleteReview:
  assumes "counter_consistent d" "wf_db d" "ok SellerUpdate"
  shows "counter_consistent (snd (deleteReview ok d reviewId caller))"
proof (cases "find (\<lambda>x. idR x = reviewId) (reviewRepository d)")
  case None
  then show ?thesis using assms(1) by (simp add: deleteReview_def findOne_review_def)
next
  case (Some r)
  have "distinct (map idR (reviewRepository d))" using assms(2) by (simp add: wf_db_def)
  from consistent_after_remove [OF assms(1) this Some] show ?thesis
    using assms(1,3) Some by (simp add: deleteReview_def findOne_review_def loaded_def Let_def)
qed

lemma consistent_addReply:
  assumes "counter_consistent d" "wf_db d"
  shows "counter_consistent (snd (addReplyToReview ok d now a s cm))"
proof (cases "find (\<lambda>x. idR x = a) (reviewRepository d)")
  case None
  with assms(1) show ?thesis by (simp add: addReplyToReview_snd)
next
  case (Some r0)
  let ?row = "r0\<lparr>reply := Some \<lparr>reply_comment = cm, reply_createdAt = now\<rparr>,
                 updatedAt := now\<rparr>"
  have "idR ?row = a" "seller ?row = seller r0" using find_idR [OF Some] by simp_all
  from consistent_update [OF assms Some this] assms(1) Some show ?thesis
    by (simp add: addReplyToReview_snd)
qed

lemma consistent_report:
  assumes "counter_consistent d" "wf_db d"
  shows "counter_consistent (snd (reportReview ok d now a p s))"
proof (cases "find (\<lambda>x. idR x = a) (reviewRepository d)")
  case None
  with assms(1) show ?thesis by (simp add: reportReview_snd)
next
  case (Some r0)
  let ?row = "r0\<lparr>reported := True, reportReason := Some s, reporterId := Some p,
                 updatedAt := now\<rparr>"
  have "idR ?row = a" "seller ?row = seller r0" using find_idR [OF Some] by simp_all
  from consistent_update [OF assms Some this] assms(1) Some show ?thesis
    by (simp add: reportReview_snd)
qed

subsection \<open>A reply that is set stays\<close>

lemma reply_kept_update:
  assumes "r' \<in> set (map (\<lambda>x. if idR x = a then row else x) rs)" "idR r' = idR r"
    and "distinct (map idR rs)" "r \<in> set rs" "idR row = a"
    and "a = idR r \<Longrightarrow> reply row = reply r"
  shows "reply r' = reply r"
proof -
  from assms(1) obtain x where x: "x \<in> set rs" "r' = (if idR x = a then row else x)"
    by auto
  show ?thesis
  proof (cases "idR x = a")
    case True
    with x assms(2,5,6) show ?thesis by simp
  next
    case False
    with x assms(2) have "idR x = idR r" by simp
    from same_id_same_row [OF assms(3) assms(4) x(1) this] False x show ?thesis by simp
  qed
qed

lemma reply_kept_run:
  assumes "wf_db d" "r \<in> set (reviewRepository d)" "reply r = Some y"
    and "r' \<in> set (reviewRepository (run ok now d c))" "idR r' = idR r"
  shows "reply r' = reply r"
proof -
  have dist: "distinct (map idR (reviewRepository d))" and lt: "idR r < nextId d"
    using assms(1,2) by (auto simp: wf_db_def)
  have f: "find (\<lambda>x. idR x = idR r) (reviewRepository d) = Some r"
    using dist assms(2) by (rule find_in_distinct)
  have old: "r' \<in> set (reviewRepository d) \<Longrightarrow> reply r' = reply r"
    using same_id_same_row [OF dist assms(2) _ assms(5)] by simp
  show ?thesis
  proof (cases c)
    case (CreateReview a b rt cm)
    obtain rows where rows:
      "reviewRepository (snd (createReview ok d now a b rt cm)) = reviewRepository d @ rows"
      "\<forall>row\<in>set rows. idR row = nextId d"
      using createReview_rows by blast
    from assms(4) CreateReview rows have "r' \<in> set (reviewRepository d) \<or> r' \<in> set rows"
      by simp
    then show ?thesis
    proof
      assume "r' \<in> set (reviewRepository d)"
      then show ?thesis by (rule old)
    next
      assume "r' \<in> set rows"
      with rows(2) assms(5) lt show ?thesis by auto
    qed
  next
    case (AddReplyToReview a s cm)
    show ?thesis
    proof (cases "find (\<lambda>x. idR x = a) (reviewRepository d)")
      case None
      with assms(4) AddReplyToReview show ?thesis by (simp add: addReplyToReview_snd old)
    next
      case (Some r0)
      let ?row = "r0\<lparr>reply := Some \<lparr>reply_comment = cm, reply_createdAt = now\<rparr>,
                     updatedAt := now\<rparr>"
      show ?thesis
      proof (cases "ok ReviewFindOne \<and> seller r0 = s \<and> reply r0 = None \<and> ok ReviewSave")
        case True
        have mem: "r' \<in> set (map (\<lambda>x. if idR x = a then ?row else x) (reviewRepository d))"
          using assms(4) AddReplyToReview Some True by (simp add: addReplyToReview_snd)
        have row: "idR ?row = a" using find_idR [OF Some] by simp
        have "a \<noteq> idR r" using Some f True assms(3) by auto
        with reply_kept_update [OF mem assms(5) dist assms(2) row] show ?thesis by simp
      next
        case False
        with assms(4) AddReplyToReview Some have "r' \<in> set (reviewRepository d)"
          by (auto simp: addReplyToReview_snd)
        then show ?thesis by (rule old)
      qed
    qed
  next
    case (ReportReview a p s)
    show ?thesis
    proof (cases "find (\<lambda>x. idR x = a) (reviewRepository d)")
      case None
      with assms(4) ReportReview show ?thesis by (simp add: reportReview_snd old)
    next
      case (Some r0)
      let ?row = "r0\<lparr>reported := True, reportReason := Some s, reporterId := Some p,
                     updatedAt := now\<rparr>"
      show ?thesis
      proof (cases "ok ReviewFindOne \<and> ok ReviewSave
                      \<and> \<not> (reported r0 \<and> reportReason r0 = Some s \<and> reporterId r0 = Some p)")
        case True
        have mem: "r' \<in> set (map (\<lambda>x. if idR x = a then ?row else x) (reviewRepository d))"
          using assms(4) ReportReview Some True by (simp add: reportReview_snd)
        have row: "idR ?row = a" using find_idR [OF Some] by simp
        have "a = idR r \<Longrightarrow> reply ?row = reply r" using Some f by simp
        from reply_kept_update [OF mem assms(5) dist assms(2) row this] show ?thesis .
      next
        case False
        with assms(4) ReportReview Some have "r' \<in> set (reviewRepository d)"
          by (auto simp: reportReview_snd)
        then show ?thesis by (rule old)
      qed
    qed
  next
    case (DeleteReview a caller)
    with assms(4) deleteReview_rows [of ok d a caller] have "r' \<in> set (reviewRepository d)"
      by auto
    then show ?thesis by (rule old)
  qed
qed

subsection \<open>The small databases\<close>

lemma db_one_created:
  "createReview all_ok db_ex 100 10 3 5 ''good''
     = (Inr \<lparr>entity = review_one, buyerReviewer = Some 7, sellerReviewer = None\<rparr>, db_one)"
  by (simp add: createReview_def all_ok_def db_ex_def db_one_def review_one_def create_def
      save_new_def add_numReviews_def Let_def)

lemma consistent_db_ex: "counter_consistent db_ex" "wf_db db_ex"
  by (simp_all add: counter_consistent_def wf_db_def db_ex_def reviews_of_def)

lemma consistent_db_one: "counter_consistent db_one" "wf_db db_one"
  by (simp_all add: counter_consistent_def wf_db_def db_one_def reviews_of_def review_one_def)

lemma order_desc_db_ten: "order_desc (reviews_of 1 db_ten) = ten_sorted"
  by (simp add: order_desc_def reviews_of_def db_ten_def review_at_def ten_sorted_def)

lemma length_reviews_db_ten: "length (reviews_of 1 db_ten) = 10"
  by (simp add: reviews_of_def db_ten_def review_at_def)

subsection \<open>The raw row of getSellerStats\<close>

lemma folded_aliases:
  "fold_identifier ''totalReviews'' = ''totalreviews''"
  "fold_identifier ''averageRating'' = ''averagerating''"
  by (simp_all add: fold_identifier_def lower_case_def)

text \<open>Neither key the service reads is a key of the raw row, so both numbers are 0.\<close>

lemma getSellerStats_zero:
  "getSellerStats ok d sellerId =
     (if ok ReviewQuery then Inr \<lparr>averageRating = 0, totalReviews = 0\<rparr> else Inl StoreFailure)"
  by (simp add: getSellerStats_def getRawOne_def folded_aliases number_or_0_def Let_def)

section \<open>The claims\<close>

subsection \<open>C1: the counter numReviews\<close>

text \<open>
  C1, as the claim has it, fails. The insert and the increment of \<open>createReview\<close> are two
  store calls, and so are the removal and the decrement of \<open>deleteReview\<close>; no transaction
  holds them together. When the update of the seller profiles rejects, \<open>createReview\<close> on
  the small database fails and leaves the review inserted with the counter still 0, and
  \<open>deleteReview\<close> fails and leaves the review removed with the counter still 1: in both
  databases the counter is no longer the number of reviews.
\<close>

theorem createReview_counter_update_fails:
  "counter_consistent db_ex
   \<and> createReview update_fails db_ex 100 10 3 5 ''good''
       = (Inl StoreFailure, db_one\<lparr>sellerRepository := sellerRepository db_ex\<rparr>)
   \<and> reviewRepository (db_one\<lparr>sellerRepository := sellerRepository db_ex\<rparr>) = [review_one]
   \<and> map numReviews (sellerRepository db_ex) = [0, 0]
   \<and> \<not> counter_consistent (db_one\<lparr>sellerRepository := sellerRepository db_ex\<rparr>)
   \<and> counter_consistent db_one
   \<and> deleteReview update_fails db_one 1 7
       = (Inl StoreFailure, db_one\<lparr>reviewRepository := []\<rparr>)
   \<and> \<not> counter_consistent (db_one\<lparr>reviewRepository := []\<rparr>)"
  by (simp add: consistent_db_ex consistent_db_one)
     (simp add: createReview_def deleteReview_def update_fails_def db_ex_def db_one_def
      review_one_def create_def save_new_def Let_def counter_consistent_def reviews_of_def
      findOne_review_def loaded_def remove_review_def)

text \<open>
  C1, amended. In a database with unique review ids where every counter is the number of
  the seller's reviews, every call of the service whose update of the seller profiles
  completes leaves a database of the same kind. A \<open>createReview\<close> that returns has
  appended the review and added 1 to the counter of its seller; a \<open>deleteReview\<close> that
  returns has removed the review and subtracted 1 from the counter of its seller. Nothing
  is said of a call whose update rejects: its insert or removal stays.
\<close>

theorem numReviews_maintained:
  assumes "counter_consistent d" "wf_db d" "ok SellerUpdate"
  shows "counter_consistent (run ok now d c) \<and> wf_db (run ok now d c)
       \<and> (\<forall>rv d'. createReview ok d now sellerId reviewerId rt cm = (Inr rv, d') \<longrightarrow>
             reviewRepository d' = reviewRepository d @ [entity rv]
           \<and> sellerRepository d' =
               map (\<lambda>s. if idS s = seller (entity rv)
                        then s\<lparr>numReviews := numReviews s + 1\<rparr> else s)
                 (sellerRepository d))
       \<and> (\<forall>d'. deleteReview ok d reviewId caller = (Inr (), d') \<longrightarrow>
             (\<exists>r. find (\<lambda>x. idR x = reviewId) (reviewRepository d) = Some r
               \<and> reviewRepository d' = filter (\<lambda>x. idR x \<noteq> reviewId) (reviewRepository d)
               \<and> sellerRepository d' =
                   map (\<lambda>s. if idS s = seller r
                            then s\<lparr>numReviews := numReviews s - 1\<rparr> else s)
                     (sellerRepository d)))"
proof -
  have inv: "counter_consistent (run ok now d c)"
  proof (cases c)
    case (CreateReview a b r m)
    with consistent_createReview [where ok = ok, OF assms(1,3)] show ?thesis by simp
  next
    case (AddReplyToReview a s m)
    with consistent_addReply [where ok = ok, OF assms(1,2)] show ?thesis by simp
  next
    case (ReportReview a p s)
    with consistent_report [where ok = ok, OF assms(1,2)] show ?thesis by simp
  next
    case (DeleteReview a u)
    with consistent_deleteReview [where ok = ok, OF assms] show ?thesis by simp
  qed
  have wf: "wf_db (run ok now d c)" using assms(2) by (rule wf_db_run)
  have cr: "\<forall>rv d'. createReview ok d now sellerId reviewerId rt cm = (Inr rv, d') \<longrightarrow>
             reviewRepository d' = reviewRepository d @ [entity rv]
           \<and> sellerRepository d' =
               map (\<lambda>s. if idS s = seller (entity rv)
                        then s\<lparr>numReviews := numReviews s + 1\<rparr> else s)
                 (sellerRepository d)"
    by (auto simp: createReview_def Let_def create_def save_new_def add_numReviews_def
        split: option.splits if_splits)
  have de: "\<forall>d'. deleteReview ok d reviewId caller = (Inr (), d') \<longrightarrow>
             (\<exists>r. find (\<lambda>x. idR x = reviewId) (reviewRepository d) = Some r
               \<and> reviewRepository d' = filter (\<lambda>x. idR x \<noteq> reviewId) (reviewRepository d)
               \<and> sellerRepository d' =
                   map (\<lambda>s. if idS s = seller r
                            then s\<lparr>numReviews := numReviews s - 1\<rparr> else s)
                     (sellerRepository d))"
    by (auto simp: deleteReview_def findOne_review_def loaded_def Let_def remove_review_def
        add_numReviews_def split: option.splits if_splits dest: find_SomeD)
  from inv wf cr de show ?thesis by blast
qed

theorem numReviews_maintained_witness:
  "counter_consistent (run all_ok 100 db_ex (CreateReview 10 3 5 ''good''))
   \<and> run all_ok 100 db_ex (CreateReview 10 3 5 ''good'') = db_one
   \<and> reviewRepository db_one = reviewRepository db_ex @ [review_one]
   \<and> map numReviews (sellerRepository db_one) = [1, 0]
   \<and> counter_consistent (run all_ok 100 db_one (DeleteReview 1 7))
   \<and> reviewRepository (run all_ok 100 db_one (DeleteReview 1 7)) = []
   \<and> map numReviews (sellerRepository (run all_ok 100 db_one (DeleteReview 1 7))) = [0, 0]"
proof -
  have o: "all_ok SellerUpdate" by (simp add: all_ok_def)
  have del: "deleteReview all_ok db_one 1 7 = (Inr (), db_ex\<lparr>nextId := 2\<rparr>)"
    by (simp add: deleteReview_def all_ok_def db_one_def db_ex_def review_one_def
        findOne_review_def loaded_def remove_review_def add_numReviews_def Let_def)
  from numReviews_maintained [where ok = all_ok and d = db_ex, OF consistent_db_ex o,
         where now = 100 and c = "CreateReview 10 3 5 ''good''" and sellerId = 10
           and reviewerId = 3 and rt = 5 and cm = "''good''" and reviewId = 1 and caller = 7]
       numReviews_maintained [where ok = all_ok and d = db_one, OF consistent_db_one o,
         where now = 100 and c = "DeleteReview 1 7" and sellerId = 10
           and reviewerId = 3 and rt = 5 and cm = "''good''" and reviewId = 1 and caller = 7]
  show ?thesis
    by (simp add: db_one_created del) (simp add: db_ex_def db_one_def review_one_def)
qed

subsection \<open>C2: createReview and the rating\<close>

text \<open>
  C2. When the seller is found, the reviewer is found and has a buyer or a seller profile,
  and the store calls complete, \<open>createReview\<close> returns a review exactly when the rating
  is between 1 and 5; outside of that range it throws the error "Rating must be between 1
  and 5" (the service's validation failure) and leaves the database as it was. The rating
  is an integer, as the column is.
\<close>

theorem createReview_rating_bounds:
  assumes "ok SellerFindOne" "ok UserFindOne" "ok ReviewSave" "ok SellerUpdate"
    and "find (\<lambda>s. userId s = sellerId) (sellerRepository d) = Some sp"
    and "find (\<lambda>u. idU u = reviewerId) (userRepository d) = Some u"
    and "buyerProfile u \<noteq> None \<or> sellerProfile u \<noteq> None"
  shows "((\<exists>rv d'. createReview ok d now sellerId reviewerId rt cm = (Inr rv, d'))
            \<longleftrightarrow> 1 \<le> rt \<and> rt \<le> 5)
         \<and> (\<not> (1 \<le> rt \<and> rt \<le> 5) \<longrightarrow>
              createReview ok d now sellerId reviewerId rt cm
                = (Inl (Error ''Rating must be between 1 and 5''), d))"
  using assms
  by (auto simp: createReview_def Let_def save_new_def split: option.splits)

theorem createReview_rating_bounds_witness:
  "(\<exists>rv d'. createReview all_ok db_ex 100 10 3 5 ''good'' = (Inr rv, d'))
   \<and> createReview all_ok db_ex 100 10 3 6 ''good''
       = (Inl (Error ''Rating must be between 1 and 5''), db_ex)"
proof -
  have s: "find (\<lambda>s. userId s = 10) (sellerRepository db_ex)
             = Some \<lparr>idS = 1, userId = 10, numReviews = 0\<rparr>"
    by (simp add: db_ex_def)
  have u: "find (\<lambda>u. idU u = 3) (userRepository db_ex)
             = Some \<lparr>idU = 3, buyerProfile = Some 7, sellerProfile = None\<rparr>"
    by (simp add: db_ex_def)
  have p: "buyerProfile \<lparr>idU = 3, buyerProfile = Some 7, sellerProfile = None\<rparr> \<noteq> None
           \<or> sellerProfile \<lparr>idU = 3, buyerProfile = Some 7, sellerProfile = None\<rparr> \<noteq> None"
    by simp
  have o: "all_ok SellerFindOne" "all_ok UserFindOne" "all_ok ReviewSave" "all_ok SellerUpdate"
    by (simp_all add: all_ok_def)
  from createReview_rating_bounds [OF o s u p, of 100 5 "''good''"]
       createReview_rating_bounds [OF o s u p, of 100 6 "''good''"]
  show ?thesis by simp
qed

subsection \<open>C3: who may delete a review\<close>

text \<open>
  C3 does not hold of the code. User 3, who has the buyer profile 7, reviews a seller; the
  object \<open>createReview\<close> returns has \<open>buyerReviewer\<close> 7, but a review loaded from the store
  has neither \<open>buyerReviewer\<close> nor \<open>sellerReviewer\<close>, so the guard of \<open>deleteReview\<close>
  lets every caller through. The caller 999, who is not the reviewer, deletes the review.
\<close>

theorem deleteReview_by_stranger:
  "createReview all_ok db_ex 100 10 3 5 ''good''
     = (Inr \<lparr>entity = review_one, buyerReviewer = Some 7, sellerReviewer = None\<rparr>, db_one)
   \<and> findOne_review 1 db_one
       = Some \<lparr>entity = review_one, buyerReviewer = None, sellerReviewer = None\<rparr>
   \<and> deleteReview all_ok db_one 1 999 = (Inr (), db_ex\<lparr>nextId := 2\<rparr>)
   \<and> reviewRepository (db_ex\<lparr>nextId := 2\<rparr>) = []"
  by (simp add: db_one_created)
     (simp add: deleteReview_def all_ok_def db_one_def db_ex_def review_one_def
        findOne_review_def loaded_def remove_review_def add_numReviews_def Let_def)

subsection \<open>C4: one reply\<close>

text \<open>
  C4, as the claim has it, fails. The review of the database \<open>db_replied\<close> belongs to
  seller 1 and has a reply. When seller 2 replies to it, the call fails with "Only the
  seller can reply to this review", not with "Review already has a reply": the caller is
  checked before the reply.
\<close>

theorem addReplyToReview_replied_other_caller:
  "map reply (reviewRepository db_replied) = [Some reply_one]
   \<and> map seller (reviewRepository db_replied) = [1]
   \<and> addReplyToReview all_ok db_replied 300 1 2 ''again''
       = (Inl (Error ''Only the seller can reply to this review''), db_replied)
   \<and> addReplyToReview all_ok db_replied 300 1 2 ''again''
       \<noteq> (Inl (Error ''Review already has a reply''), db_replied)"
  by (simp add: addReplyToReview_def all_ok_def db_replied_def db_one_def review_one_def
      findOne_review_def loaded_def)

text \<open>
  C4, amended. For a review with a reply, in a database with unique review ids:
  \<open>addReplyToReview\<close> fails for every caller and leaves the database as it was; once the
  review is loaded, the error is "Review already has a reply" for the reviewed seller and
  "Only the seller can reply to this review" for any other caller; and after any call of
  the service the review of that id, if it is still there, has the same reply.
\<close>

theorem reply_never_overwritten:
  assumes "wf_db d" "r \<in> set (reviewRepository d)" "reply r = Some x"
  shows "(\<exists>e. addReplyToReview ok d now (idR r) sellerId cm = (Inl e, d))
       \<and> (ok ReviewFindOne \<longrightarrow>
            addReplyToReview ok d now (idR r) sellerId cm
              = (Inl (Error (if seller r = sellerId then ''Review already has a reply''
                             else ''Only the seller can reply to this review'')), d))
       \<and> (\<forall>r'\<in>set (reviewRepository (run ok now d c)). idR r' = idR r \<longrightarrow> reply r' = Some x)"
proof -
  have "distinct (map idR (reviewRepository d))" using assms(1) by (simp add: wf_db_def)
  then have f: "find (\<lambda>x. idR x = idR r) (reviewRepository d) = Some r"
    using assms(2) by (rule find_in_distinct)
  have a: "\<exists>e. addReplyToReview ok d now (idR r) sellerId cm = (Inl e, d)"
    using assms(3) by (simp add: addReplyToReview_def findOne_review_def f loaded_def)
  have b: "ok ReviewFindOne \<longrightarrow>
            addReplyToReview ok d now (idR r) sellerId cm
              = (Inl (Error (if seller r = sellerId then ''Review already has a reply''
                             else ''Only the seller can reply to this review'')), d)"
    using assms(3) by (simp add: addReplyToReview_def findOne_review_def f loaded_def)
  have c: "\<forall>r'\<in>set (reviewRepository (run ok now d c)). idR r' = idR r \<longrightarrow> reply r' = Some x"
    using reply_kept_run [OF assms(1) assms(2) assms(3)] assms(3) by auto
  from a b c show ?thesis by blast
qed

theorem reply_never_overwritten_witness:
  "addReplyToReview all_ok db_replied 300 1 1 ''again''
     = (Inl (Error ''Review already has a reply''), db_replied)
   \<and> map reply (reviewRepository (run all_ok 300 db_replied (ReportReview 1 9 ''spam'')))
       = [Some reply_one]
   \<and> map reported (reviewRepository (run all_ok 300 db_replied (ReportReview 1 9 ''spam'')))
       = [True]"
proof -
  have w: "wf_db db_replied"
    by (simp add: wf_db_def db_replied_def db_one_def review_one_def)
  have m: "review_one\<lparr>reply := Some reply_one, updatedAt := 200\<rparr>
             \<in> set (reviewRepository db_replied)"
    by (simp add: db_replied_def)
  have r: "reply (review_one\<lparr>reply := Some reply_one, updatedAt := 200\<rparr>) = Some reply_one"
    by simp
  have o: "all_ok ReviewFindOne" by (simp add: all_ok_def)
  from reply_never_overwritten [OF w m r, of all_ok 300 1 "''again''" "ReportReview 1 9 ''spam''"] o
  show ?thesis
    by (simp add: review_one_def)
       (simp add: reportReview_def all_ok_def db_replied_def db_one_def review_one_def
          findOne_review_def loaded_def save_loaded_def Let_def)
qed

subsection \<open>C5: getSellerStats\<close>

text \<open>
  C5 does not hold of the code. Seller 1 of the database \<open>db_ten\<close> has ten reviews whose
  ratings have the mean 18/5, and the aggregate query counts and averages them; but its
  row comes back with the keys \<open>totalreviews\<close> and \<open>averagerating\<close>, the service reads
  \<open>totalReviews\<close> and \<open>averageRating\<close>, and \<open>getSellerStats\<close> returns 0 and 0.
\<close>

theorem getSellerStats_returns_zero:
  "getSellerStats all_ok db_ten 1 = Inr \<lparr>averageRating = 0, totalReviews = 0\<rparr>
   \<and> length (reviews_of 1 db_ten) = 10
   \<and> avg_rating (reviews_of 1 db_ten) = Some (18 / 5)
   \<and> getRawOne (reviews_of 1 db_ten)
       = [(''totalreviews'', Some 10), (''averagerating'', Some (18 / 5))]"
  by (simp add: getSellerStats_zero all_ok_def getRawOne_def folded_aliases avg_rating_def
      length_reviews_db_ten)
     (simp add: reviews_of_def db_ten_def review_at_def)

subsection \<open>C6: the reviewer of a stored review\<close>

text \<open>
  C6 does not hold of the code. \<open>createReview\<close> puts the reviewer's profile into the
  property \<open>buyerReviewer\<close> or \<open>sellerReviewer\<close> of the object, and the object it returns
  has it; the row it stores has no such column and its \<open>buyer\<close> is never set. The review
  of user 3 (buyer profile 7) is stored without a reviewer, a later \<open>findOne\<close> finds
  none, and the database is the same as when user 4 (seller profile 2) writes the review.
\<close>

theorem createReview_row_without_reviewer:
  "createReview all_ok db_ex 100 10 3 5 ''good''
     = (Inr \<lparr>entity = review_one, buyerReviewer = Some 7, sellerReviewer = None\<rparr>, db_one)
   \<and> reviewRepository db_one = [review_one]
   \<and> buyer review_one = None
   \<and> findOne_review 1 db_one
       = Some \<lparr>entity = review_one, buyerReviewer = None, sellerReviewer = None\<rparr>
   \<and> snd (createReview all_ok db_ex 100 10 4 5 ''good'')
       = snd (createReview all_ok db_ex 100 10 3 5 ''good'')"
  by (simp add: db_one_created)
     (simp add: createReview_def all_ok_def db_one_def db_ex_def review_one_def
        findOne_review_def loaded_def create_def save_new_def add_numReviews_def Let_def)

subsection \<open>C7 and C8: getSellerReviews\<close>

text \<open>
  C7, as the claim has it, fails: with page 1 and limit 0 the method does not reject the
  call. It returns a page, and the page holds all ten reviews of the seller.
\<close>

theorem getSellerReviews_zero_limit:
  "getSellerReviews all_ok db_ten 1 1 0
     = Inr \<lparr>reviews = ten_sorted, total = 10, hasMore = True\<rparr>"
  by (simp add: getSellerReviews_def all_ok_def skip_take_def order_desc_db_ten
      length_reviews_db_ten)

text \<open>
  C7, amended. \<open>getSellerReviews\<close> does not validate \<open>page\<close> and \<open>limit\<close>; they go
  unchecked into \<open>skip((page - 1) * limit)\<close> and \<open>take(limit)\<close>, and no call throws an
  error of the service's own. When the query is sent: with a negative limit or a negative
  \<open>(page - 1) * limit\<close> the store refuses it and the call fails with the store's failure;
  with limit 0 the call returns all reviews of the seller; otherwise it returns the page;
  in both, with the number of the seller's reviews as \<open>total\<close> and
  \<open>hasMore = total > page * limit\<close>.
\<close>

theorem getSellerReviews_unchecked:
  assumes "ok ReviewQuery"
  shows "getSellerReviews ok d sellerId page limit =
           (if (page - 1) * limit < 0 \<or> limit < 0 then Inl StoreFailure
            else Inr \<lparr>reviews =
                        (if limit = 0 then order_desc (reviews_of sellerId d)
                         else take (nat limit) (drop (nat ((page - 1) * limit))
                                (order_desc (reviews_of sellerId d)))),
                      total = int (length (filter (\<lambda>r. seller r = sellerId) (reviewRepository d))),
                      hasMore =
                        (int (length (filter (\<lambda>r. seller r = sellerId) (reviewRepository d)))
                           > page * limit)\<rparr>)
         \<and> (\<forall>ok' msg. getSellerReviews ok' d sellerId page limit \<noteq> Inl (Error msg))"
  using assms
  by (simp add: getSellerReviews_def skip_take_def Let_def reviews_of_def)

theorem getSellerReviews_unchecked_witness:
  "getSellerReviews all_ok db_ten 1 3 0
     = Inr \<lparr>reviews = ten_sorted, total = 10, hasMore = True\<rparr>
   \<and> getSellerReviews all_ok db_ten 1 0 5 = Inl StoreFailure
   \<and> getSellerReviews all_ok db_ten 1 1 (- 5) = Inl StoreFailure
   \<and> getSellerReviews all_ok db_ten 1 2 5
       = Inr \<lparr>reviews = drop 5 ten_sorted, total = 10, hasMore = False\<rparr>"
proof -
  have o: "all_ok ReviewQuery" by (simp add: all_ok_def)
  have n: "int (length (filter (\<lambda>r. seller r = 1) (reviewRepository db_ten))) = 10"
    using length_reviews_db_ten by (simp add: reviews_of_def)
  from getSellerReviews_unchecked [where ok = all_ok, OF o,
         where page = 3 and limit = 0 and d = db_ten and sellerId = 1]
       getSellerReviews_unchecked [where ok = all_ok, OF o,
         where page = 0 and limit = 5 and d = db_ten and sellerId = 1]
       getSellerReviews_unchecked [where ok = all_ok, OF o,
         where page = 1 and limit = "- 5" and d = db_ten and sellerId = 1]
       getSellerReviews_unchecked [where ok = all_ok, OF o,
         where page = 2 and limit = 5 and d = db_ten and sellerId = 1]
  show ?thesis
    by (simp add: order_desc_db_ten n) (simp add: ten_sorted_def)
qed

text \<open>
  C8, as the claim has it, fails: it speaks of every page and limit. With page 2 and limit
  0 the method skips nothing and returns all ten reviews of the seller, which is more
  than \<open>limit\<close> rows.
\<close>

theorem getSellerReviews_limit_zero_keeps_all:
  "getSellerReviews all_ok db_ten 1 2 0
     = Inr \<lparr>reviews = ten_sorted, total = 10, hasMore = True\<rparr>
   \<and> length ten_sorted = 10
   \<and> \<not> length ten_sorted \<le> nat 0"
  by (simp add: getSellerReviews_def all_ok_def skip_take_def order_desc_db_ten
      length_reviews_db_ten)
     (simp add: ten_sorted_def)

text \<open>
  C8, amended. For a positive page and a positive limit, and when the query completes,
  \<open>getSellerReviews\<close> returns the seller's reviews in descending order of \<open>createdAt\<close>,
  with the first \<open>(page - 1) * limit\<close> of them skipped and at most \<open>limit\<close> of them kept,
  the number of the seller's reviews as \<open>total\<close>, and \<open>hasMore = total > page * limit\<close>.
  With ten reviews or more, page 2 of limit 5 holds the sixth to the tenth of them.
\<close>

theorem getSellerReviews_page:
  assumes "ok ReviewQuery" "1 \<le> page" "1 \<le> limit"
  shows "\<exists>p. getSellerReviews ok d sellerId page limit = Inr p
     \<and> reviews p = take (nat limit) (drop (nat ((page - 1) * limit))
                      (order_desc (reviews_of sellerId d)))
     \<and> mset (order_desc (reviews_of sellerId d))
         = mset (filter (\<lambda>r. seller r = sellerId) (reviewRepository d))
     \<and> sorted_wrt (\<lambda>a b. createdAt a \<ge> createdAt b) (order_desc (reviews_of sellerId d))
     \<and> sorted_wrt (\<lambda>a b. createdAt a \<ge> createdAt b) (reviews p)
     \<and> length (reviews p) \<le> nat limit
     \<and> total p = int (length (filter (\<lambda>r. seller r = sellerId) (reviewRepository d)))
     \<and> hasMore p = (total p > page * limit)
     \<and> (page = 2 \<and> limit = 5 \<and> 10 \<le> total p \<longrightarrow>
          reviews p = map (\<lambda>i. order_desc (reviews_of sellerId d) ! i) [5..<10])"
proof -
  let ?xs = "order_desc (reviews_of sellerId d)"
  have "0 \<le> (page - 1) * limit" using assms by (intro mult_nonneg_nonneg) simp_all
  moreover have "0 \<le> limit" using assms by simp
  ultimately have nonneg: "\<not> ((page - 1) * limit < 0 \<or> limit < 0)"
    by (simp only: not_less de_Morgan_disj simp_thms)
  have len: "length ?xs = length (reviews_of sellerId d)" by (simp add: order_desc_def)
  have ten: "page = 2 \<Longrightarrow> limit = 5 \<Longrightarrow> 10 \<le> int (length (reviews_of sellerId d)) \<Longrightarrow>
     take (nat limit) (drop (nat ((page - 1) * limit)) ?xs) = map (\<lambda>i. ?xs ! i) [5..<10]"
    using take_drop_nth [of 5 5 ?xs] len by simp
  have pos: "limit \<noteq> 0" using assms(3) by simp
  show ?thesis
    using assms(1) nonneg pos ten
    by (simp add: getSellerReviews_def skip_take_def Let_def sorted_order_desc)
       (simp add: order_desc_def reviews_of_def)
qed

theorem getSellerReviews_page_witness:
  "\<exists>p. getSellerReviews all_ok db_ten 1 2 5 = Inr p
     \<and> map idR (reviews p) = [7, 10, 2, 5, 8]
     \<and> map createdAt (reviews p) = [50, 40, 30, 20, 10]
     \<and> total p = 10 \<and> hasMore p = False"
proof -
  have o: "all_ok ReviewQuery" by (simp add: all_ok_def)
  from getSellerReviews_page [where ok = all_ok, OF o, of 2 5 db_ten 1]
  obtain p where p: "getSellerReviews all_ok db_ten 1 2 5 = Inr p"
    and r: "reviews p = take (nat 5) (drop (nat ((2 - 1) * 5)) (order_desc (reviews_of 1 db_ten)))"
    and t: "total p = int (length (filter (\<lambda>r. seller r = 1) (reviewRepository db_ten)))"
    and h: "hasMore p = (total p > 2 * 5)"
    by auto
  have "order_desc (reviews_of 1 db_ten) =
      [review_at 3 100 3, review_at 6 90 2, review_at 9 80 3, review_at 1 70 5,
       review_at 4 60 5, review_at 7 50 5, review_at 10 40 4, review_at 2 30 4,
       review_at 5 20 1, review_at 8 10 4]"
    using order_desc_db_ten by (simp add: ten_sorted_def)
  with r have "map idR (reviews p) = [7, 10, 2, 5, 8]"
    "map createdAt (reviews p) = [50, 40, 30, 20, 10]"
    by (simp_all add: review_at_def)
  moreover have "total p = 10" using t by (simp add: db_ten_def review_at_def)
  ultimately show ?thesis using p h by simp
qed

subsection \<open>C9: reportReview\<close>

text \<open>
  C9. For a review that exists, and when the store calls complete, \<open>reportReview\<close>
  returns the review with \<open>reported\<close> true and \<open>reportReason\<close> and \<open>reporterId\<close> as given,
  and stores it. A second report, by another reporter or for another reason, succeeds
  as well, and the stored review is then the original one with the second report's reason
  and reporter only. \<open>updatedAt\<close> is the time of the report, except that a report which
  repeats the stored reason and reporter writes nothing and leaves it.
\<close>

theorem reportReview_last_report_wins:
  assumes "ok ReviewFindOne" "ok ReviewSave"
    and "find (\<lambda>x. idR x = reviewId) (reviewRepository d) = Some r"
  shows "\<exists>d1 d2.
      reportReview ok d t1 reviewId p1 s1
        = (Inr (loaded (r\<lparr>reported := True, reportReason := Some s1, reporterId := Some p1,
                            updatedAt :=
                              (if reported r \<and> reportReason r = Some s1 \<and> reporterId r = Some p1
                               then updatedAt r else t1)\<rparr>)), d1)
    \<and> find (\<lambda>x. idR x = reviewId) (reviewRepository d1)
        = Some (r\<lparr>reported := True, reportReason := Some s1, reporterId := Some p1,
                   updatedAt :=
                     (if reported r \<and> reportReason r = Some s1 \<and> reporterId r = Some p1
                      then updatedAt r else t1)\<rparr>)
    \<and> reportReview ok d1 t2 reviewId p2 s2
        = (Inr (loaded (r\<lparr>reported := True, reportReason := Some s2, reporterId := Some p2,
                            updatedAt :=
                              (if s1 = s2 \<and> p1 = p2
                               then (if reported r \<and> reportReason r = Some s1
                                        \<and> reporterId r = Some p1
                                     then updatedAt r else t1)
                               else t2)\<rparr>)), d2)
    \<and> find (\<lambda>x. idR x = reviewId) (reviewRepository d2)
        = Some (r\<lparr>reported := True, reportReason := Some s2, reporterId := Some p2,
                   updatedAt :=
                     (if s1 = s2 \<and> p1 = p2
                      then (if reported r \<and> reportReason r = Some s1 \<and> reporterId r = Some p1
                            then updatedAt r else t1)
                      else t2)\<rparr>)"
proof -
  define u1 where
    "u1 = (if reported r \<and> reportReason r = Some s1 \<and> reporterId r = Some p1
           then updatedAt r else t1)"
  define r1 where
    "r1 = r\<lparr>reported := True, reportReason := Some s1, reporterId := Some p1, updatedAt := u1\<rparr>"
  from reportReview_found [OF assms, of t1 p1 s1]
  obtain d1 where 1: "reportReview ok d t1 reviewId p1 s1 = (Inr (loaded r1), d1)"
    and f1: "find (\<lambda>x. idR x = reviewId) (reviewRepository d1) = Some r1"
    unfolding r1_def u1_def by blast
  from reportReview_found [OF assms(1,2) f1, of t2 p2 s2]
  obtain d2 where
    2: "reportReview ok d1 t2 reviewId p2 s2
          = (Inr (loaded (r1\<lparr>reported := True, reportReason := Some s2, reporterId := Some p2,
                              updatedAt :=
                                (if reported r1 \<and> reportReason r1 = Some s2
                                    \<and> reporterId r1 = Some p2
                                 then updatedAt r1 else t2)\<rparr>)), d2)"
    and f2: "find (\<lambda>x. idR x = reviewId) (reviewRepository d2)
          = Some (r1\<lparr>reported := True, reportReason := Some s2, reporterId := Some p2,
                     updatedAt :=
                       (if reported r1 \<and> reportReason r1 = Some s2 \<and> reporterId r1 = Some p2
                        then updatedAt r1 else t2)\<rparr>)"
    by blast
  have e: "r1\<lparr>reported := True, reportReason := Some s2, reporterId := Some p2,
              updatedAt :=
                (if reported r1 \<and> reportReason r1 = Some s2 \<and> reporterId r1 = Some p2
                 then updatedAt r1 else t2)\<rparr>
           = r\<lparr>reported := True, reportReason := Some s2, reporterId := Some p2,
                updatedAt := (if s1 = s2 \<and> p1 = p2 then u1 else t2)\<rparr>"
    by (simp add: r1_def)
  from 1 f1 2 f2 show ?thesis
    unfolding e unfolding r1_def u1_def by blast
qed

theorem reportReview_last_report_wins_witness:
  "\<exists>d1 d2.
      reportReview all_ok db_one 300 1 9 ''spam''
        = (Inr (loaded (review_one\<lparr>reported := True, reportReason := Some ''spam'',
                                    reporterId := Some 9, updatedAt := 300\<rparr>)), d1)
    \<and> reportReview all_ok d1 400 1 8 ''rude''
        = (Inr (loaded (review_one\<lparr>reported := True, reportReason := Some ''rude'',
                                    reporterId := Some 8, updatedAt := 400\<rparr>)), d2)
    \<and> find (\<lambda>x. idR x = 1) (reviewRepository d2)
        = Some (review_one\<lparr>reported := True, reportReason := Some ''rude'',
                           reporterId := Some 8, updatedAt := 400\<rparr>)"
proof -
  have o: "all_ok ReviewFindOne" "all_ok ReviewSave" by (simp_all add: all_ok_def)
  have f: "find (\<lambda>x. idR x = 1) (reviewRepository db_one) = Some review_one"
    by (simp add: db_one_def review_one_def)
  have n: "reported review_one = False" by (simp add: review_one_def)
  from reportReview_last_report_wins
         [where ok = all_ok, OF o f, where ?t1.0 = 300 and ?p1.0 = 9 and ?s1.0 = "''spam''"
            and ?t2.0 = 400 and ?p2.0 = 8 and ?s2.0 = "''rude''"]
  have "\<exists>d1 d2.
      reportReview all_ok db_one 300 1 9 ''spam''
        = (Inr (loaded (review_one\<lparr>reported := True, reportReason := Some ''spam'',
                                    reporterId := Some 9, updatedAt := 300\<rparr>)), d1)
    \<and> find (\<lambda>x. idR x = 1) (reviewRepository d1)
        = Some (review_one\<lparr>reported := True, reportReason := Some ''spam'',
                           reporterId := Some 9, updatedAt := 300\<rparr>)
    \<and> reportReview all_ok d1 400 1 8 ''rude''
        = (Inr (loaded (review_one\<lparr>reported := True, reportReason := Some ''rude'',
                                    reporterId := Some 8, updatedAt := 400\<rparr>)), d2)
    \<and> find (\<lambda>x. idR x = 1) (reviewRepository d2)
        = Some (review_one\<lparr>reported := True, reportReason := Some ''rude'',
                           reporterId := Some 8, updatedAt := 400\<rparr>)"
    by (simp add: n)
  then show ?thesis by blast
qed

subsection \<open>C10: what a reply and a report leave alone\<close>



end
